theory Spec2Isabelle
  imports Complex_Main "HOL-Library.Log_Nat" "HOL-Library.Sublist"
begin

section \<open>Python numbers used by \<^verbatim>\<open>app.py\<close>\<close>

text \<open>
  \<^verbatim>\<open>resize_if_needed\<close> computes \<^verbatim>\<open>int((height / width) * max_size)\<close>: a true division of
  two Python ints, a product of a float and an int, and a truncation. Python floats are IEEE
  binary64 values. A finite binary64 value is a rational number, and every operation returns
  the representable value nearest to the exact result, ties going to the even significand.
  The model works on the rationals: \<open>double x\<close> is the nearest value with a 53-bit
  significand. The exponent is not bounded, so overflow and subnormal numbers are not
  modelled; the image dimensions and caps this program meets are far from both.
\<close>

definition pow2 :: "int \<Rightarrow> rat" where
  "pow2 e = (if 0 \<le> e then 2 ^ nat e else 1 / 2 ^ nat (- e))"

text \<open>The binary exponent of a positive rational: \<open>pow2 e \<le> x < pow2 (e + 1)\<close>.\<close>

definition ilog2 :: "rat \<Rightarrow> int" where
  "ilog2 x =
     (if 1 \<le> x then int (floorlog 2 (nat \<lfloor>x\<rfloor>)) - 1
      else - int (floorlog 2 (nat (\<lceil>1 / x\<rceil> - 1))))"

text \<open>Rounding to the nearest integer, ties to the even one.\<close>

definition round_even :: "rat \<Rightarrow> int" where
  "round_even y =
     (let f = \<lfloor>y\<rfloor>; r = y - of_int f in
      if r < 1 / 2 then f
      else if 1 / 2 < r then f + 1
      else if even f then f else f + 1)"

definition double_pos :: "rat \<Rightarrow> rat" where
  "double_pos x = (let e = ilog2 x in of_int (round_even (x * pow2 (52 - e))) * pow2 (e - 52))"

definition double :: "rat \<Rightarrow> rat" where
  "double x = (if x = 0 then 0 else if 0 < x then double_pos x else - double_pos (- x))"

text \<open>The exceptions the interpreter raises itself in the code modelled here.\<close>

datatype pyerr = TypeError | AttributeError | ValueError | ZeroDivisionError | KeyError

text \<open>
  The exceptions the handler can see, by the only distinction its \<^verbatim>\<open>except\<close> clauses make:
  \<^verbatim>\<open>requests.RequestException\<close> (with its subclasses) against every other \<^verbatim>\<open>Exception\<close>. The
  string is \<^verbatim>\<open>str(e)\<close>. \<open>LibraryError\<close> is an exception of a library other than requests
  (binascii, PIL, rembg, werkzeug); \<open>PyError\<close> is one the interpreter raises itself.
\<close>

datatype exn = RequestException string | LibraryError string | PyError pyerr

text \<open>\<^verbatim>\<open>a / b\<close> on two ints: the correctly rounded quotient, or ZeroDivisionError.\<close>

definition py_truediv :: "int \<Rightarrow> int \<Rightarrow> exn + rat" where
  "py_truediv a b =
     (if b = 0 then Inl (PyError ZeroDivisionError) else Inr (double (of_int a / of_int b)))"

text \<open>\<^verbatim>\<open>x * n\<close> with a float \<open>x\<close> and an int \<open>n\<close>: the int is converted to a float first.\<close>

definition py_mul_float_int :: "rat \<Rightarrow> int \<Rightarrow> rat" where
  "py_mul_float_int x n = double (x * double (of_int n))"

text \<open>\<^verbatim>\<open>int(x)\<close> on a float truncates toward zero.\<close>

definition py_int :: "rat \<Rightarrow> int" where
  "py_int x = (if 0 \<le> x then \<lfloor>x\<rfloor> else \<lceil>x\<rceil>)"

definition py_sub_float :: "rat \<Rightarrow> rat \<Rightarrow> rat" where
  "py_sub_float x y = double (x - y)"

text \<open>
  \<^verbatim>\<open>round(x, 2)\<close> on a float: CPython rounds the exact value of \<open>x\<close> to two decimals
  (ties to even) and returns the float nearest to that decimal.
\<close>

definition py_round2 :: "rat \<Rightarrow> rat" where
  "py_round2 x = double (of_int (round_even (x * 100)) / 100)"

section \<open>Python strings\<close>

text \<open>\<^verbatim>\<open>s.split(sep, 1)\<close>: at most one split, at the first separator.\<close>

definition str_split1 :: "char \<Rightarrow> string \<Rightarrow> string list" where
  "str_split1 sep s =
     (if sep \<in> set s then [takeWhile (\<lambda>c. c \<noteq> sep) s, tl (dropWhile (\<lambda>c. c \<noteq> sep) s)]
      else [s])"

definition lower_char :: "char \<Rightarrow> char" where
  "lower_char c =
     (let n = (of_char c :: nat) in if 65 \<le> n \<and> n \<le> 90 then char_of (n + 32) else c)"

definition str_lower :: "string \<Rightarrow> string" where
  "str_lower s = map lower_char s"

section \<open>Data model\<close>

type_synonym bytes = "char list"

text \<open>The value \<^verbatim>\<open>request.get_json()\<close> returns, and the values \<^verbatim>\<open>jsonify\<close> serialises.\<close>

datatype json =
    JNull
  | JBool bool
  | JInt int
  | JFloat rat
  | JStr string
  | JArr "json list"
  | JObj "(string \<times> json) list"

text \<open>A PIL image: \<^verbatim>\<open>image.size\<close> is (width, height), \<^verbatim>\<open>image.mode\<close> the colour mode.\<close>

record image =
  img_size :: "int \<times> int"
  img_mode :: string
  img_data :: bytes

record http_response =
  status_code :: int
  content :: bytes

datatype payload = Json json | Binary bytes

record response =
  status :: int
  mimetype :: string
  payload :: payload

text \<open>The calls that leave the process or reach the model, in the order they are made.\<close>

datatype call = HttpGet json | RembgRemove image json

text \<open>
  Everything \<^verbatim>\<open>app.py\<close> takes from outside itself: its configuration, the libraries it
  calls and the clock. A library call that raises returns \<open>Inl\<close> with \<^verbatim>\<open>str(e)\<close>;
  only requests can raise a \<^verbatim>\<open>RequestException\<close>.
\<close>

record env =
  MAX_IMAGE_SIZE :: int
  py_str :: "pyerr \<Rightarrow> string"
  b64decode :: "string \<Rightarrow> string + bytes"
  b64encode :: "bytes \<Rightarrow> string"
  image_open :: "bytes \<Rightarrow> string + image"
  image_convert :: "image \<Rightarrow> string \<Rightarrow> string + image"
  image_resize :: "image \<Rightarrow> int \<times> int \<Rightarrow> string + image"
  image_save :: "image \<Rightarrow> string \<Rightarrow> string + bytes"
  requests_get :: "json \<Rightarrow> nat \<Rightarrow> exn + http_response"
  http_error_str :: "http_response \<Rightarrow> string"
  rembg_remove :: "image \<Rightarrow> json \<Rightarrow> nat \<Rightarrow> nat \<Rightarrow> string + image"
  time_start :: rat
  time_end :: rat

definition raised :: "string + 'a \<Rightarrow> exn + 'a" where
  "raised r = (case r of Inl m \<Rightarrow> Inl (LibraryError m) | Inr x \<Rightarrow> Inr x)"

definition str_exn :: "env \<Rightarrow> exn \<Rightarrow> string" where
  "str_exn env e =
     (case e of RequestException m \<Rightarrow> m | LibraryError m \<Rightarrow> m | PyError k \<Rightarrow> py_str env k)"

section \<open>Operations on the request payload\<close>

text \<open>\<^verbatim>\<open>not data\<close> is true of None, False, zero and every empty container.\<close>

fun truthy :: "json \<Rightarrow> bool" where
  "truthy JNull = False"
| "truthy (JBool b) = b"
| "truthy (JInt i) = (i \<noteq> 0)"
| "truthy (JFloat r) = (r \<noteq> 0)"
| "truthy (JStr s) = (s \<noteq> [])"
| "truthy (JArr xs) = (xs \<noteq> [])"
| "truthy (JObj kvs) = (kvs \<noteq> [])"

text \<open>\<^verbatim>\<open>key in data\<close>: a key of a dict, an element of a list, a substring of a str.\<close>

fun py_contains :: "json \<Rightarrow> string \<Rightarrow> exn + bool" where
  "py_contains (JObj kvs) key = Inr (key \<in> set (map fst kvs))"
| "py_contains (JArr xs) key = Inr (JStr key \<in> set xs)"
| "py_contains (JStr s) key = Inr (sublist key s)"
| "py_contains _ key = Inl (PyError TypeError)"

text \<open>\<^verbatim>\<open>data[key]\<close> with a str key.\<close>

fun py_getitem :: "json \<Rightarrow> string \<Rightarrow> exn + json" where
  "py_getitem (JObj kvs) key =
     (case map_of kvs key of None \<Rightarrow> Inl (PyError KeyError) | Some v \<Rightarrow> Inr v)"
| "py_getitem _ key = Inl (PyError TypeError)"

text \<open>\<^verbatim>\<open>data.get(key, default)\<close>.\<close>

fun py_get :: "json \<Rightarrow> string \<Rightarrow> json \<Rightarrow> exn + json" where
  "py_get (JObj kvs) key d = Inr (case map_of kvs key of None \<Rightarrow> d | Some v \<Rightarrow> v)"
| "py_get _ key d = Inl (PyError AttributeError)"

section \<open>The functions of \<^verbatim>\<open>app.py\<close>\<close>

text \<open>
  \<^verbatim>\<open>decode_base64_image\<close> (lines 40-49). The argument is whatever JSON value sits under
  \<^verbatim>\<open>imageData\<close>; only a str has \<^verbatim>\<open>startswith\<close>. Unpacking the split into two names raises
  ValueError when the data URL has no comma.
\<close>

definition decode_base64_image :: "env \<Rightarrow> json \<Rightarrow> exn + image" where
  "decode_base64_image env data_url_or_base64 =
     (case data_url_or_base64 of
        JStr s \<Rightarrow>
          (case (if prefix ''data:'' s
                 then (case str_split1 CHR '','' s of
                         [header, encoded] \<Rightarrow> Inr encoded
                       | _ \<Rightarrow> Inl (PyError ValueError))
                 else Inr s) of
             Inl e \<Rightarrow> Inl e
           | Inr encoded \<Rightarrow>
               (case raised (b64decode env encoded) of
                  Inl e \<Rightarrow> Inl e
                | Inr image_data \<Rightarrow> raised (image_open env image_data)))
      | _ \<Rightarrow> Inl (PyError AttributeError))"

text \<open>
  \<^verbatim>\<open>response.raise_for_status()\<close> of the requests library raises HTTPError, a
  RequestException, exactly for the status codes 400 to 599.
\<close>

definition raise_for_status :: "env \<Rightarrow> http_response \<Rightarrow> exn + unit" where
  "raise_for_status env r =
     (if 400 \<le> status_code r \<and> status_code r < 600
      then Inl (RequestException (http_error_str env r)) else Inr ())"

text \<open>\<^verbatim>\<open>fetch_image_from_url\<close> (lines 52-56).\<close>

definition fetch_image_from_url :: "env \<Rightarrow> json \<Rightarrow> exn + image" where
  "fetch_image_from_url env url =
     (case requests_get env url 30 of
        Inl e \<Rightarrow> Inl e
      | Inr r \<Rightarrow>
          (case raise_for_status env r of
             Inl e \<Rightarrow> Inl e
           | Inr _ \<Rightarrow> raised (image_open env (content r))))"

text \<open>\<^verbatim>\<open>resize_if_needed\<close> (lines 59-70); the resampling filter is always LANCZOS.\<close>

definition resize_if_needed :: "env \<Rightarrow> image \<Rightarrow> int \<Rightarrow> exn + image" where
  "resize_if_needed env img max_size =
     (case img_size img of (width, height) \<Rightarrow>
        if width > max_size \<or> height > max_size then
          (case (if width > height
                 then (case py_truediv height width of
                         Inl e \<Rightarrow> Inl e
                       | Inr q \<Rightarrow> Inr (max_size, py_int (py_mul_float_int q max_size)))
                 else (case py_truediv width height of
                         Inl e \<Rightarrow> Inl e
                       | Inr q \<Rightarrow> Inr (py_int (py_mul_float_int q max_size), max_size))) of
             Inl e \<Rightarrow> Inl e
           | Inr new_size \<Rightarrow> raised (image_resize env img new_size))
        else Inr img)"

text \<open>\<^verbatim>\<open>image_to_base64\<close> (lines 73-79).\<close>

definition image_to_base64 :: "env \<Rightarrow> image \<Rightarrow> string \<Rightarrow> exn + string" where
  "image_to_base64 env img format =
     (case raised (image_save env img format) of
        Inl e \<Rightarrow> Inl e
      | Inr buffer \<Rightarrow>
          Inr (''data:image/'' @ str_lower format @ '';base64,'' @ b64encode env buffer))"

definition jsonify :: "json \<Rightarrow> int \<Rightarrow> response" where
  "jsonify j code = \<lparr>status = code, mimetype = ''application/json'', payload = Json j\<rparr>"

definition send_file :: "bytes \<Rightarrow> string \<Rightarrow> response" where
  "send_file buffer mt = \<lparr>status = 200, mimetype = mt, payload = Binary buffer\<rparr>"

definition size_json :: "int \<times> int \<Rightarrow> json" where
  "size_json sz = JArr [JInt (fst sz), JInt (snd sz)]"

text \<open>The image source of a request (lines 115-121); \<open>None\<close> is the final \<^verbatim>\<open>else\<close>.\<close>

definition resolve_image :: "env \<Rightarrow> json \<Rightarrow> call list \<times> (exn + image option)" where
  "resolve_image env data =
     (case py_contains data ''imageData'' of
        Inl e \<Rightarrow> ([], Inl e)
      | Inr True \<Rightarrow>
          (case py_getitem data ''imageData'' of
             Inl e \<Rightarrow> ([], Inl e)
           | Inr v \<Rightarrow> ([], map_sum id Some (decode_base64_image env v)))
      | Inr False \<Rightarrow>
          (case py_contains data ''imageUrl'' of
             Inl e \<Rightarrow> ([], Inl e)
           | Inr True \<Rightarrow>
               (case py_getitem data ''imageUrl'' of
                  Inl e \<Rightarrow> ([], Inl e)
                | Inr url \<Rightarrow> ([HttpGet url], map_sum id Some (fetch_image_from_url env url)))
           | Inr False \<Rightarrow> ([], Inr None)))"

text \<open>Lines 123-125: an image in another mode than RGB or RGBA is converted to RGBA.\<close>

definition ensure_mode :: "env \<Rightarrow> image \<Rightarrow> exn + image" where
  "ensure_mode env img =
     (if img_mode img \<notin> set [''RGB'', ''RGBA'']
      then raised (image_convert env img ''RGBA'') else Inr img)"

text \<open>Lines 156-165: the success envelope of the base64 form.\<close>

definition success_json :: "string \<Rightarrow> int \<times> int \<Rightarrow> int \<times> int \<Rightarrow> rat \<Rightarrow> json" where
  "success_json data_url original_size processed_size elapsed =
     JObj [(''success'', JBool True),
           (''dataUrl'', JStr data_url),
           (''originalSize'', size_json original_size),
           (''processedSize'', size_json processed_size),
           (''processingTime'', JFloat (py_round2 elapsed))]"

text \<open>Lines 146-165: the two output forms.\<close>

definition encode_output :: "env \<Rightarrow> json \<Rightarrow> image \<Rightarrow> int \<times> int \<Rightarrow> image \<Rightarrow> rat \<Rightarrow> exn + response" where
  "encode_output env return_format output_image original_size img elapsed =
     (if return_format = JStr ''binary'' then
        (case raised (image_save env output_image ''PNG'') of
           Inl e \<Rightarrow> Inl e
         | Inr buffer \<Rightarrow> Inr (send_file buffer ''image/png''))
      else
        (case image_to_base64 env output_image ''PNG'' of
           Inl e \<Rightarrow> Inl e
         | Inr data_url \<Rightarrow>
             Inr (jsonify (success_json data_url original_size (img_size img) elapsed) 200)))"

text \<open>Lines 123-165: everything the handler does once it holds an image.\<close>

definition process_image :: "env \<Rightarrow> json \<Rightarrow> image \<Rightarrow> call list \<times> (exn + response)" where
  "process_image env data image0 =
     (case ensure_mode env image0 of
        Inl e \<Rightarrow> ([], Inl e)
      | Inr image1 \<Rightarrow>
          (case resize_if_needed env image1 (MAX_IMAGE_SIZE env) of
             Inl e \<Rightarrow> ([], Inl e)
           | Inr img \<Rightarrow>
               (case py_get data ''alpha_matting'' (JBool True) of
                  Inl e \<Rightarrow> ([], Inl e)
                | Inr alpha_matting \<Rightarrow>
                    (case py_get data ''return_format'' (JStr ''base64'') of
                       Inl e \<Rightarrow> ([], Inl e)
                     | Inr return_format \<Rightarrow>
                         ([RembgRemove img alpha_matting],
                          (case raised (rembg_remove env img alpha_matting 240 10) of
                             Inl e \<Rightarrow> Inl e
                           | Inr output_image \<Rightarrow>
                               encode_output env return_format output_image (img_size image1)
                                 img (py_sub_float (time_end env) (time_start env))))))))"

text \<open>The \<^verbatim>\<open>try\<close> block (lines 108-165). \<open>Inl m\<close> as request: \<^verbatim>\<open>request.get_json()\<close> raised.\<close>

definition try_block :: "env \<Rightarrow> string + json \<Rightarrow> call list \<times> (exn + response)" where
  "try_block env request =
     (case raised request of
        Inl e \<Rightarrow> ([], Inl e)
      | Inr data \<Rightarrow>
          if \<not> truthy data
          then ([], Inr (jsonify (JObj [(''error'', JStr ''No JSON data provided'')]) 400))
          else
            (case resolve_image env data of
               (calls, Inl e) \<Rightarrow> (calls, Inl e)
             | (calls, Inr None) \<Rightarrow>
                 (calls, Inr (jsonify
                    (JObj [(''error'', JStr ''No image provided. Use imageData or imageUrl'')])
                    400))
             | (calls, Inr (Some img)) \<Rightarrow>
                 (case process_image env data img of (calls', r) \<Rightarrow> (calls @ calls', r))))"

text \<open>The two \<^verbatim>\<open>except\<close> clauses (lines 167-170).\<close>

definition except_clauses :: "env \<Rightarrow> exn \<Rightarrow> response" where
  "except_clauses env e =
     (case e of
        RequestException m \<Rightarrow>
          jsonify (JObj [(''error'', JStr (''Failed to fetch image: '' @ m))]) 400
      | _ \<Rightarrow> jsonify (JObj [(''error'', JStr (str_exn env e))]) 500)"

text \<open>\<^verbatim>\<open>remove_background\<close> (lines 92-170): the response and the calls made on the way.\<close>

definition remove_background :: "env \<Rightarrow> string + json \<Rightarrow> call list \<times> response" where
  "remove_background env request =
     (case try_block env request of
        (calls, Inl e) \<Rightarrow> (calls, except_clauses env e)
      | (calls, Inr r) \<Rightarrow> (calls, r))"

section \<open>The standard library's base64 decoder\<close>

text \<open>
  \<^verbatim>\<open>base64.b64decode(s)\<close> as line 48 calls it, without \<^verbatim>\<open>validate=True\<close>: CPython's
  \<^verbatim>\<open>binascii.a2b_base64\<close> in its lenient mode. A str with a non-ASCII character is refused.
  Otherwise every character outside the alphabet is skipped; decoding stops at a pad
  character that completes a quad, whatever follows it; and the input is refused only when
  it ends inside a quad.
\<close>

definition b64_index :: "char \<Rightarrow> nat option" where
  "b64_index c =
     (let n = (of_char c :: nat) in
      if 65 \<le> n \<and> n \<le> 90 then Some (n - 65)
      else if 97 \<le> n \<and> n \<le> 122 then Some (n - 71)
      else if 48 \<le> n \<and> n \<le> 57 then Some (n + 4)
      else if n = 43 then Some 62
      else if n = 47 then Some 63
      else None)"

fun decimal :: "nat \<Rightarrow> string" where
  "decimal n =
     (if n < 10 then [char_of (48 + n)] else decimal (n div 10) @ [char_of (48 + n mod 10)])"

declare decimal.simps [simp del]

text \<open>
  The loop of \<^verbatim>\<open>a2b_base64\<close>: \<open>quad\<close> is the position inside the current group of four
  characters, \<open>left\<close> the bits not yet written, \<open>pads\<close> the pad characters seen since the last
  data character, \<open>out\<close> the bytes written so far.
\<close>

fun a2b_base64 :: "string \<Rightarrow> nat \<Rightarrow> nat \<Rightarrow> nat \<Rightarrow> bytes \<Rightarrow> string + bytes" where
  "a2b_base64 [] quad left pads out =
     (if quad = 0 then Inr out
      else if quad = 1 then
        Inl (''Invalid base64-encoded string: number of data characters ('' @
             decimal (length out div 3 * 4 + 1) @
             '') cannot be 1 more than a multiple of 4'')
      else Inl ''Incorrect padding'')"
| "a2b_base64 (c # cs) quad left pads out =
     (if c = CHR ''='' then
        (if 2 \<le> quad then
           (if 4 \<le> quad + (pads + 1) then Inr out
            else a2b_base64 cs quad left (pads + 1) out)
         else a2b_base64 cs quad left pads out)
      else
        (case b64_index c of
           None \<Rightarrow> a2b_base64 cs quad left pads out
         | Some v \<Rightarrow>
             if quad = 0 then a2b_base64 cs 1 v 0 out
             else if quad = 1 then
               a2b_base64 cs 2 (v mod 16) 0 (out @ [char_of (left * 4 + v div 16)])
             else if quad = 2 then
               a2b_base64 cs 3 (v mod 4) 0 (out @ [char_of (left * 16 + v div 4)])
             else a2b_base64 cs 0 0 0 (out @ [char_of (left * 64 + v)])))"

definition py_b64decode :: "string \<Rightarrow> string + bytes" where
  "py_b64decode s =
     (if list_ex (\<lambda>c. 128 \<le> (of_char c :: nat)) s
      then Inl ''string argument should contain only ASCII characters''
      else a2b_base64 s 0 0 0 [])"


section \<open>What the handler relies on in PIL\<close>

text \<open>
  \<^verbatim>\<open>Image.resize\<close> returns an image of the requested size, \<^verbatim>\<open>Image.convert\<close> one of
  the requested mode; each keeps what the other changes.
\<close>

definition resize_contract :: "env \<Rightarrow> bool" where
  "resize_contract env \<longleftrightarrow>
     (\<forall>img sz img'. image_resize env img sz = Inr img' \<longrightarrow>
        img_size img' = sz \<and> img_mode img' = img_mode img)"

definition convert_contract :: "env \<Rightarrow> bool" where
  "convert_contract env \<longleftrightarrow>
     (\<forall>img m img'. image_convert env img m = Inr img' \<longrightarrow>
        img_mode img' = m \<and> img_size img' = img_size img)"

section \<open>A concrete environment\<close>

text \<open>
  Three images stand for decoded files: a wide RGB one above the default cap, a small
  greyscale one, and one so thin that its scaled height is 0. They are reachable inline as
  the base64 of their names. The base64 decoder is the standard library's, \<^verbatim>\<open>Image.resize\<close>
  refuses a dimension below 1 as PIL does, and a host serves an HTML page.
\<close>

definition wide_image :: image where
  "wide_image = \<lparr>img_size = (3000, 1000), img_mode = ''RGB'', img_data = ''wide''\<rparr>"

definition small_image :: image where
  "small_image = \<lparr>img_size = (640, 480), img_mode = ''L'', img_data = ''small''\<rparr>"

definition thin_image :: image where
  "thin_image = \<lparr>img_size = (3000, 1), img_mode = ''RGB'', img_data = ''thin''\<rparr>"

definition demo_env :: env where
  "demo_env =
     \<lparr>MAX_IMAGE_SIZE = 2048,
      py_str = (\<lambda>k. ''python error''),
      b64decode = py_b64decode,
      b64encode = (\<lambda>b. if b = ''out'' then ''b3V0'' else []),
      image_open = (\<lambda>b. if b = ''wide'' then Inr wide_image
                         else if b = ''small'' then Inr small_image
                         else if b = ''thin'' then Inr thin_image
                         else Inl ''cannot identify image file''),
      image_convert = (\<lambda>img m. Inr (img\<lparr>img_mode := m\<rparr>)),
      image_resize = (\<lambda>img sz. if fst sz < 1 \<or> snd sz < 1
                                then Inl ''height and width must be > 0''
                                else Inr (img\<lparr>img_size := sz\<rparr>)),
      image_save = (\<lambda>img fmt. Inr ''out''),
      requests_get = (\<lambda>url timeout.
                        if url = JStr ''http://example.com/page.html''
                        then Inr \<lparr>status_code = 200, content = ''<html></html>''\<rparr>
                        else if url = JStr ''http://example.com/wide.png''
                        then Inr \<lparr>status_code = 200, content = ''wide''\<rparr>
                        else Inl (RequestException ''connection refused'')),
      http_error_str = (\<lambda>r. ''HTTP error''),
      rembg_remove = (\<lambda>img alpha_matting fg bg. Inr (img\<lparr>img_mode := ''RGBA''\<rparr>)),
      time_start = 1000,
      time_end = 1000 + 3 / 8\<rparr>"

section \<open>Accuracy of the float model\<close>

lemma pow2_powi: "pow2 e = 2 powi e"
  by (simp add: pow2_def power_int_def inverse_eq_divide power_one_over)

lemma pow2_pos: "0 < pow2 e"
  by (simp add: pow2_powi)

lemma pow2_add: "pow2 (a + b) = pow2 a * pow2 b"
  by (simp add: pow2_powi power_int_add)

lemma pow2_nat: "pow2 (int n) = 2 ^ n"
  by (simp add: pow2_def)

lemma pow2_mono: "a \<le> b \<Longrightarrow> pow2 a \<le> pow2 b"
  by (simp add: pow2_powi power_int_increasing)

lemma ilog2_le:
  assumes "0 < x"
  shows "pow2 (ilog2 x) \<le> x"
proof (cases "1 \<le> x")
  case True
  define n where "n = nat \<lfloor>x\<rfloor>"
  have n: "0 < n" using True by (simp add: n_def)
  have "floorlog 2 n \<noteq> 0"
    using n by (simp add: floorlog_eq_zero_iff)
  then have "1 \<le> floorlog 2 n" by simp
  moreover have "2 ^ (floorlog 2 n - 1) \<le> n"
    using floorlog_bounds [of n 2] n by simp
  ultimately have "pow2 (int (floorlog 2 n) - 1) \<le> of_nat n"
    by (metis of_nat_le_iff of_nat_numeral of_nat_power pow2_nat of_nat_diff of_nat_1)
  also have "(of_nat n :: rat) \<le> x"
    using True by (simp add: n_def)
  finally show ?thesis using True by (simp add: ilog2_def n_def)
next
  case False
  define n where "n = nat (\<lceil>1 / x\<rceil> - 1)"
  define k where "k = floorlog 2 n"
  have "1 < 1 / x" using False assms by simp
  then have c: "2 \<le> \<lceil>1 / x\<rceil>" by linarith
  then have n: "0 < n" by (simp add: n_def)
  have "n < 2 ^ k" using floorlog_bounds [of n 2] n by (simp add: k_def)
  then have "int n < 2 ^ k" by simp
  then have "int n + 1 \<le> 2 ^ k" by linarith
  moreover have "int n = \<lceil>1 / x\<rceil> - 1" using c assms by (simp add: n_def)
  ultimately have "\<lceil>1 / x\<rceil> \<le> 2 ^ k" by simp
  then have "1 / x \<le> 2 ^ k"
    by (metis ceiling_le_iff of_int_numeral of_int_power)
  then have "1 / 2 ^ k \<le> x"
    using assms by (simp add: field_simps)
  moreover have "pow2 (- int k) = 1 / 2 ^ k"
    by (simp add: pow2_def)
  ultimately show ?thesis using False by (simp add: ilog2_def n_def k_def)
qed

lemma round_even_err: "\<bar>of_int (round_even y) - y\<bar> \<le> 1 / 2"
proof -
  have "of_int \<lfloor>y\<rfloor> \<le> y" "y < of_int \<lfloor>y\<rfloor> + 1" by linarith+
  then show ?thesis
    by (auto simp: round_even_def Let_def)
qed

lemma round_even_of_int: "round_even (of_int k) = k"
  by (simp add: round_even_def)

lemma double_pos_err:
  assumes "0 < x"
  shows "\<bar>double_pos x - x\<bar> \<le> x / 2 ^ 53"
proof -
  define e where "e = ilog2 x"
  define y where "y = x * pow2 (52 - e)"
  have inv: "pow2 (52 - e) * pow2 (e - 52) = 1"
    using pow2_add [of "52 - e" "e - 52"] by (simp add: pow2_def)
  have "double_pos x - x = (of_int (round_even y) - y) * pow2 (e - 52)"
    using inv by (simp add: double_pos_def e_def y_def Let_def algebra_simps)
  then have "\<bar>double_pos x - x\<bar> = \<bar>of_int (round_even y) - y\<bar> * pow2 (e - 52)"
    using pow2_pos [of "e - 52"] by (simp add: abs_mult)
  also have "\<dots> \<le> 1 / 2 * pow2 (e - 52)"
    using round_even_err [of y] pow2_pos [of "e - 52"] by (intro mult_right_mono) auto
  also have "pow2 (e - 52) = pow2 e * pow2 (- 52)"
    using pow2_add [of e "- 52"] by simp
  also have "pow2 (- 52) = 1 / 2 ^ 52" by (simp add: pow2_def)
  also have "1 / 2 * (pow2 e * (1 / 2 ^ 52)) = pow2 e / 2 ^ 53" by simp
  also have "\<dots> \<le> x / 2 ^ 53"
    using ilog2_le [OF assms] by (simp add: e_def divide_right_mono)
  finally show ?thesis .
qed


lemma double_0: "double 0 = 0"
  by (simp add: double_def)

lemma double_pos_eq: "0 < x \<Longrightarrow> double x = double_pos x"
  by (simp add: double_def)

lemma double_err:
  assumes "0 < x"
  shows "\<bar>double x - x\<bar> \<le> x / 2 ^ 53"
  using double_pos_err [OF assms] assms by (simp add: double_pos_eq)

lemma double_pos_gt0:
  assumes "0 < x"
  shows "0 < double x"
proof -
  have "x / 2 ^ 53 < x" using assms by (simp add: field_simps)
  with double_err [OF assms] show ?thesis by linarith
qed

lemma double_of_int:
  assumes "0 \<le> m" "m < 2 ^ 53"
  shows "double (of_int m) = of_int m"
proof (cases "m = 0")
  case True
  then show ?thesis by (simp add: double_0)
next
  case False
  with assms have m: "0 < m" by simp
  define x :: rat where "x = of_int m"
  define e where "e = ilog2 x"
  have x: "0 < x" using m by (simp add: x_def)
  have "x < pow2 53" using assms(2) by (simp add: x_def pow2_def)
  with ilog2_le [OF x] have "pow2 e < pow2 53" by (simp add: e_def)
  then have e: "e \<le> 52" using pow2_mono [of 53 e] by (cases "53 \<le> e") auto
  define n where "n = nat (52 - e)"
  have p: "pow2 (52 - e) = of_int (2 ^ n)" using e by (simp add: pow2_def n_def)
  have inv: "pow2 (52 - e) * pow2 (e - 52) = 1"
    using pow2_add [of "52 - e" "e - 52"] by (simp add: pow2_def)
  have "x * pow2 (52 - e) = of_int (m * 2 ^ n)" by (simp add: x_def p)
  then have "round_even (x * pow2 (52 - e)) = m * 2 ^ n"
    by (simp only: round_even_of_int)
  then have "double_pos x = of_int (m * 2 ^ n) * pow2 (e - 52)"
    by (simp add: double_pos_def e_def Let_def)
  also have "\<dots> = x * (pow2 (52 - e) * pow2 (e - 52))"
    by (simp add: x_def p)
  finally have "double_pos x = x" by (simp add: inv)
  then show ?thesis using x by (simp add: double_pos_eq x_def)
qed

lemma floor_near_quotient:
  fixes p :: rat and N l :: int
  assumes l: "0 < l" and near: "\<bar>p * of_int l - of_int N\<bar> < 1"
  shows "\<lfloor>p\<rfloor> = N div l \<or> (l dvd N \<and> \<lfloor>p\<rfloor> = N div l - 1)"
proof -
  define n where "n = N div l"
  define r where "r = N mod l"
  have N: "N = n * l + r" by (simp add: n_def r_def)
  have r: "0 \<le> r" "r < l" using l by (simp_all add: r_def)
  have lo: "of_int N - 1 < p * of_int l" and hi: "p * of_int l < of_int N + 1"
    using near by linarith+
  have cancel: "of_int k * of_int l < p * of_int l \<Longrightarrow> of_int k < p"
    "p * of_int l < of_int k * of_int l \<Longrightarrow> p < of_int k" for k :: int
    using l by simp_all
  have up: "p < of_int (n + 1)"
  proof -
    have "N + 1 \<le> (n + 1) * l"
      using r unfolding N by (simp add: algebra_simps)
    then have "of_int N + (1::rat) \<le> of_int ((n + 1) * l)"
      by (metis of_int_1 of_int_add of_int_le_iff)
    with hi have "p * of_int l < of_int (n + 1) * of_int l" by simp
    then show ?thesis by (rule cancel)
  qed
  show ?thesis
  proof (cases "r = 0")
    case True
    then have d: "l dvd N" by (simp add: r_def dvd_eq_mod_eq_0)
    have "(n - 1) * l \<le> N - 1"
      using l True unfolding N by (simp add: algebra_simps)
    then have "of_int ((n - 1) * l) \<le> (of_int N :: rat) - 1"
      by (metis of_int_1 of_int_diff of_int_le_iff)
    with lo have "of_int (n - 1) * of_int l < p * of_int l" by simp
    then have "of_int (n - 1) < p" by (rule cancel)
    then have "n - 1 \<le> \<lfloor>p\<rfloor>" by (simp add: le_floor_iff)
    moreover have "\<lfloor>p\<rfloor> \<le> n" using up by (simp add: floor_le_iff)
    ultimately show ?thesis using d by (auto simp: n_def)
  next
    case False
    with r have "1 \<le> r" by simp
    then have "n * l \<le> N - 1"
      unfolding N by simp
    then have "of_int (n * l) \<le> (of_int N :: rat) - 1"
      by (metis of_int_1 of_int_diff of_int_le_iff)
    with lo have "of_int n * of_int l < p * of_int l" by simp
    then have "of_int n < p" by (rule cancel)
    then have "n \<le> \<lfloor>p\<rfloor>" by (simp add: le_floor_iff)
    moreover have "\<lfloor>p\<rfloor> \<le> n" using up by (simp add: floor_le_iff)
    ultimately show ?thesis by (auto simp: n_def)
  qed
qed


lemma scaled_dim_near:
  fixes s l m :: int
  assumes s: "0 < s" and l: "0 < l" and m: "0 < m" and b: "s * m \<le> 2 ^ 51"
  defines "p \<equiv> py_mul_float_int (double (of_int s / of_int l)) m"
  shows "0 < p" and "\<bar>p * of_int l - of_int (s * m)\<bar> < 1"
proof -
  define U :: rat where "U = 2 ^ 53"
  define x0 :: rat where "x0 = of_int s / of_int l"
  define q where "q = double x0"
  define t where "t = q * of_int m"
  define X where "X = x0 * of_int m"
  have U: "1 \<le> U" "0 < U" by (simp_all add: U_def)
  have x0: "0 < x0" using s l by (simp add: x0_def)
  have q: "0 < q" unfolding q_def using x0 by (rule double_pos_gt0)
  have t: "0 < t" using q m by (simp add: t_def)
  have X: "0 < X" using x0 m by (simp add: X_def)
  have "m * 1 \<le> m * s" using s m by (intro mult_left_mono) auto
  with b have "m < 2 ^ 53" by (simp add: mult.commute)
  then have dm: "double (of_int m) = of_int m" using m by (simp add: double_of_int)
  have p: "p = double t" by (simp add: p_def py_mul_float_int_def dm t_def q_def x0_def)
  have e1: "\<bar>q - x0\<bar> \<le> x0 / U" unfolding q_def U_def using x0 by (rule double_err)
  have e2: "\<bar>p - t\<bar> \<le> t / U" unfolding p U_def using t by (rule double_err)
  show "0 < p" unfolding p using t by (rule double_pos_gt0)
  have "t - X = (q - x0) * of_int m" by (simp add: t_def X_def algebra_simps)
  then have "\<bar>t - X\<bar> = \<bar>q - x0\<bar> * of_int m" using m by (simp add: abs_mult)
  also have "\<dots> \<le> x0 / U * of_int m" using e1 m by (intro mult_right_mono) auto
  also have "\<dots> = X / U" by (simp add: X_def)
  finally have e3: "\<bar>t - X\<bar> \<le> X / U" .
  have "X / U \<le> X" using U X by (simp add: field_simps)
  with e3 have t2: "t \<le> 2 * X" by linarith
  then have "t / U \<le> 2 * X / U" using U by (simp add: divide_right_mono)
  with e2 e3 have "\<bar>p - X\<bar> \<le> 2 * X / U + X / U" by linarith
  then have e4: "\<bar>p - X\<bar> \<le> 3 * X / U" by (simp add: field_simps)
  have Xl: "X * of_int l = of_int (s * m)" using l by (simp add: X_def x0_def)
  have "p * of_int l - of_int (s * m) = (p - X) * of_int l"
    unfolding Xl [symmetric] by (simp add: algebra_simps)
  then have "\<bar>p * of_int l - of_int (s * m)\<bar> = \<bar>p - X\<bar> * of_int l"
    using l by (simp add: abs_mult)
  also have "\<dots> \<le> 3 * X / U * of_int l" using e4 l by (intro mult_right_mono) auto
  also have "\<dots> = 3 * (X * of_int l) / U" by simp
  also have "\<dots> = 3 * of_int (s * m) / U" by (simp only: Xl)
  also have "\<dots> \<le> 3 * 2 ^ 51 / U"
  proof -
    have "(of_int (s * m) :: rat) \<le> of_int (2 ^ 51)" using b by (simp only: of_int_le_iff)
    then have "3 * (of_int (s * m) :: rat) \<le> 3 * 2 ^ 51" by (simp add: mult.commute)
    then show ?thesis using U(2) by (rule divide_right_mono [OF _ less_imp_le])
  qed
  also have "\<dots> < 1" by (simp add: U_def)
  finally show "\<bar>p * of_int l - of_int (s * m)\<bar> < 1" .
qed

lemma scaled_dim:
  fixes s l m :: int
  assumes s: "0 \<le> s" and l: "0 < l" and m0: "0 \<le> m" and b: "s * m \<le> 2 ^ 51"
  defines "n \<equiv> py_int (py_mul_float_int (double (of_int s / of_int l)) m)"
  shows "n = s * m div l \<or> (l dvd s * m \<and> n = s * m div l - 1)"
proof (cases "s = 0 \<or> m = 0")
  case True
  then show ?thesis
    by (auto simp: n_def py_int_def py_mul_float_int_def double_0)
next
  case False
  with s m0 have s': "0 < s" and m: "0 < m" by simp_all
  define p where "p = py_mul_float_int (double (of_int s / of_int l)) m"
  have "0 < p" and "\<bar>p * of_int l - of_int (s * m)\<bar> < 1"
    unfolding p_def using s' l m b by (rule scaled_dim_near)+
  then have "n = \<lfloor>p\<rfloor>" and "\<lfloor>p\<rfloor> = s * m div l \<or> (l dvd s * m \<and> \<lfloor>p\<rfloor> = s * m div l - 1)"
    using floor_near_quotient [OF l, of p "s * m"] by (simp_all add: n_def p_def py_int_def)
  then show ?thesis by simp
qed

subsection \<open>The model is rounding to nearest, ties to even, on 53 bits\<close>

text \<open>
  \<open>ilog2\<close> is the binary exponent, so the significand of \<open>double_pos x\<close> is an integer
  between \<open>2^52\<close> and \<open>2^53\<close> at distance at most one half from the scaled \<open>x\<close>, and a tie
  goes to the even one.
\<close>

lemma ilog2_less:
  assumes "0 < x"
  shows "x < pow2 (ilog2 x + 1)"
proof (cases "1 \<le> x")
  case True
  define n where "n = nat \<lfloor>x\<rfloor>"
  have n: "0 < n" using True by (simp add: n_def)
  have "n < 2 ^ floorlog 2 n" using floorlog_bounds [of n 2] n by simp
  then have "int n < 2 ^ floorlog 2 n" by simp
  then have "int n + 1 \<le> 2 ^ floorlog 2 n" by linarith
  moreover have "int n = \<lfloor>x\<rfloor>" using True by (simp add: n_def)
  ultimately have "\<lfloor>x\<rfloor> + 1 \<le> 2 ^ floorlog 2 n" by simp
  then have "of_int (\<lfloor>x\<rfloor> + 1) \<le> (of_int (2 ^ floorlog 2 n) :: rat)"
    by (simp only: of_int_le_iff)
  moreover have "x < of_int (\<lfloor>x\<rfloor> + 1)" by linarith
  ultimately have "x < 2 ^ floorlog 2 n" by simp
  moreover have "pow2 (int (floorlog 2 n)) = 2 ^ floorlog 2 n" by (rule pow2_nat)
  ultimately show ?thesis using True by (simp add: ilog2_def n_def)
next
  case False
  define n where "n = nat (\<lceil>1 / x\<rceil> - 1)"
  define k where "k = floorlog 2 n"
  have "1 < 1 / x" using False assms by simp
  then have c: "2 \<le> \<lceil>1 / x\<rceil>" by linarith
  then have n: "0 < n" by (simp add: n_def)
  have "floorlog 2 n \<noteq> 0" using n by (simp add: floorlog_eq_zero_iff)
  then have k: "1 \<le> k" by (simp add: k_def)
  have "2 ^ (k - 1) \<le> n" using floorlog_bounds [of n 2] n by (simp add: k_def)
  then have "(2 :: int) ^ (k - 1) \<le> int n"
    by (metis of_nat_le_iff of_nat_numeral of_nat_power)
  moreover have "int n = \<lceil>1 / x\<rceil> - 1" using c assms by (simp add: n_def)
  ultimately have "(of_int (2 ^ (k - 1)) :: rat) \<le> of_int (\<lceil>1 / x\<rceil> - 1)"
    by (simp only: of_int_le_iff)
  moreover have "of_int (\<lceil>1 / x\<rceil> - 1) < 1 / x" by linarith
  ultimately have "2 ^ (k - 1) < 1 / x" by simp
  then have "x < 1 / 2 ^ (k - 1)" using assms by (simp add: field_simps)
  moreover have "pow2 (- int k + 1) = 1 / 2 ^ (k - 1)"
    using k by (simp add: pow2_def nat_diff_distrib' of_nat_diff) 
  ultimately show ?thesis using False by (simp add: ilog2_def n_def k_def)
qed

lemma double_pos_significand:
  assumes "0 < x"
  shows "double_pos x = of_int (round_even (x * pow2 (52 - ilog2 x))) * pow2 (ilog2 x - 52)"
    and "2 ^ 52 \<le> round_even (x * pow2 (52 - ilog2 x))"
    and "round_even (x * pow2 (52 - ilog2 x)) \<le> 2 ^ 53"
proof -
  define e where "e = ilog2 x"
  define y where "y = x * pow2 (52 - e)"
  show "double_pos x = of_int (round_even (x * pow2 (52 - ilog2 x))) * pow2 (ilog2 x - 52)"
    by (simp add: double_pos_def Let_def)
  have p: "0 < pow2 (52 - e)" by (rule pow2_pos)
  have "pow2 e \<le> x" unfolding e_def using assms by (rule ilog2_le)
  then have "pow2 e * pow2 (52 - e) \<le> y"
    unfolding y_def using p by (intro mult_right_mono) auto
  moreover have "pow2 e * pow2 (52 - e) = 2 ^ 52"
    using pow2_add [of e "52 - e"] by (simp add: pow2_def)
  ultimately have lo: "2 ^ 52 \<le> y" by simp
  have "x < pow2 (e + 1)" unfolding e_def using assms by (rule ilog2_less)
  then have "y < pow2 (e + 1) * pow2 (52 - e)"
    unfolding y_def using p by (intro mult_strict_right_mono) auto
  moreover have "pow2 (e + 1) * pow2 (52 - e) = 2 ^ 53"
    using pow2_add [of "e + 1" "52 - e"] by (simp add: pow2_def)
  ultimately have hi: "y < 2 ^ 53" by simp
  have r: "\<bar>of_int (round_even y) - y\<bar> \<le> 1 / 2" by (rule round_even_err)
  have "(2 ^ 52 :: rat) - 1 < of_int (round_even y)" using lo r by linarith
  then have "(of_int (2 ^ 52 - 1) :: rat) < of_int (round_even y)" by simp
  then have "(2 ^ 52 :: int) - 1 < round_even y" by (simp only: of_int_less_iff)
  then show "2 ^ 52 \<le> round_even (x * pow2 (52 - ilog2 x))" by (simp add: y_def e_def)
  have "of_int (round_even y) < (2 ^ 53 :: rat) + 1" using hi r by linarith
  then have "(of_int (round_even y) :: rat) < of_int (2 ^ 53 + 1)" by simp
  then have "round_even y < (2 ^ 53 :: int) + 1" by (simp only: of_int_less_iff)
  then show "round_even (x * pow2 (52 - ilog2 x)) \<le> 2 ^ 53" by (simp add: y_def e_def)
qed

lemma round_even_tie: "y - of_int \<lfloor>y\<rfloor> = 1 / 2 \<Longrightarrow> even (round_even y)"
  by (simp add: round_even_def Let_def)

text \<open>The values CPython prints for the same expressions (as exact fractions).\<close>

lemma double_third: "double (1 / 3) = 6004799503160661 / 18014398509481984"
  by code_simp

lemma double_tenth: "double (1 / 10) = 3602879701896397 / 36028797018963968"
  by code_simp

lemma double_49: "double (double (1 / 49) * 49) = 9007199254740991 / 9007199254740992"
  by code_simp

lemma py_round2_eighth: "py_round2 (1 / 8) = double (12 / 100)"
  by code_simp

lemma py_round2_2675: "py_round2 (double (2675 / 1000)) = double (267 / 100)"
  by code_simp

lemma double_tie_down: "double (9007199254740993 / 9007199254740992) = 1"
  by code_simp

lemma double_tie_up:
  "double (9007199254740995 / 9007199254740992) = 2251799813685249 / 2251799813685248"
  by code_simp

section \<open>The image source of a request\<close>

lemma py_contains_obj: "py_contains (JObj kvs) key = Inr (map_of kvs key \<noteq> None)"
  by (simp add: map_of_eq_None_iff)

lemma resolve_image_obj:
  "resolve_image env (JObj kvs) =
     (case map_of kvs ''imageData'' of
        Some v \<Rightarrow> ([], map_sum id Some (decode_base64_image env v))
      | None \<Rightarrow>
          (case map_of kvs ''imageUrl'' of
             Some url \<Rightarrow> ([HttpGet url], map_sum id Some (fetch_image_from_url env url))
           | None \<Rightarrow> ([], Inr None)))"
  unfolding resolve_image_def py_contains_obj
  by (simp split: option.splits)

text \<open>
  C1, as the code has it. A JSON object with neither \<^verbatim>\<open>imageData\<close> nor \<^verbatim>\<open>imageUrl\<close> is
  answered with status 400 and a single \<^verbatim>\<open>error\<close> field, and nothing is fetched. The message is
  \<^verbatim>\<open>No image provided. Use imageData or imageUrl\<close> when the object has at least one key; the
  empty object is falsy, so line 111 answers it first, with \<^verbatim>\<open>No JSON data provided\<close>.
\<close>

theorem missing_input_400:
  assumes "''imageData'' \<notin> fst ` set kvs" and "''imageUrl'' \<notin> fst ` set kvs"
  shows "remove_background env (Inr (JObj kvs)) =
    ([], jsonify (JObj [(''error'',
       JStr (if kvs = [] then ''No JSON data provided''
             else ''No image provided. Use imageData or imageUrl''))]) 400)"
proof -
  from assms have "map_of kvs ''imageData'' = None" "map_of kvs ''imageUrl'' = None"
    by (simp_all add: map_of_eq_None_iff)
  then have "resolve_image env (JObj kvs) = ([], Inr None)"
    by (simp add: resolve_image_obj)
  then show ?thesis
    by (simp add: remove_background_def try_block_def raised_def)
qed

theorem missing_input_400_witness:
  "''imageData'' \<notin> fst ` set [(''alpha_matting'', JBool False)] \<and>
   ''imageUrl'' \<notin> fst ` set [(''alpha_matting'', JBool False)] \<and>
   remove_background demo_env (Inr (JObj [(''alpha_matting'', JBool False)])) =
    ([], jsonify (JObj [(''error'', JStr ''No image provided. Use imageData or imageUrl'')]) 400)"
  using missing_input_400 [of "[(''alpha_matting'', JBool False)]" demo_env] by simp

text \<open>
  C1 as stated fails at the empty object: the body of the answer to \<^verbatim>\<open>{}\<close> is not the one
  the claim gives.
\<close>

theorem empty_object_counterexample:
  "snd (remove_background demo_env (Inr (JObj []))) =
     jsonify (JObj [(''error'', JStr ''No JSON data provided'')]) 400 \<and>
   snd (remove_background demo_env (Inr (JObj []))) \<noteq>
     jsonify (JObj [(''error'', JStr ''No image provided. Use imageData or imageUrl'')]) 400"
  by (simp add: remove_background_def try_block_def raised_def jsonify_def)

section \<open>Failures and the status they get\<close>

lemma raised_not_request: "raised r \<noteq> Inl (RequestException m)"
  by (cases r) (simp_all add: raised_def)

lemma raised_Inl_iff: "raised r = Inl e \<longleftrightarrow> (\<exists>m. r = Inl m \<and> e = LibraryError m)"
  by (cases r) (auto simp: raised_def)

lemma raised_Inr_iff: "raised r = Inr x \<longleftrightarrow> r = Inr x"
  by (cases r) (auto simp: raised_def)








lemma py_b64decode_examples:
  "py_b64decode ''d2lkZQ=='' = Inr ''wide''"
  "py_b64decode ''!!!'' = Inr []"
  "py_b64decode ''d2lkZQ==AAAA'' = Inr ''wide''"
  "py_b64decode ''abc'' = Inl ''Incorrect padding''"
  "py_b64decode ''AAAAA'' =
     Inl ''Invalid base64-encoded string: number of data characters (5) cannot be 1 more than a multiple of 4''"
  by code_simp+

text \<open>
  C2, as the code has it. When \<^verbatim>\<open>imageData\<close> is absent, the fetch of \<^verbatim>\<open>imageUrl\<close> returns a
  2xx status and \<^verbatim>\<open>Image.open\<close> rejects the body, the answer has status 500 and carries the
  image parser's message: the parser's exception is not a \<^verbatim>\<open>RequestException\<close>.
\<close>

theorem unparseable_fetch_500:
  assumes "map_of kvs ''imageData'' = None" and "map_of kvs ''imageUrl'' = Some url"
    and "requests_get env url 30 = Inr r"
    and "200 \<le> status_code r" and "status_code r < 300"
    and "image_open env (content r) = Inl m"
  shows "remove_background env (Inr (JObj kvs)) =
    ([HttpGet url], jsonify (JObj [(''error'', JStr m)]) 500)"
proof -
  from assms(2) have "kvs \<noteq> []" by auto
  moreover have "fetch_image_from_url env url = Inl (LibraryError m)"
    using assms(3-6) by (simp add: fetch_image_from_url_def raise_for_status_def raised_def)
  ultimately show ?thesis using assms(1,2)
    by (simp add: remove_background_def try_block_def raised_def resolve_image_obj
        except_clauses_def str_exn_def)
qed

theorem unparseable_fetch_500_witness:
  "map_of [(''imageUrl'', JStr ''http://example.com/page.html'')] ''imageData'' = None \<and>
   map_of [(''imageUrl'', JStr ''http://example.com/page.html'')] ''imageUrl'' =
     Some (JStr ''http://example.com/page.html'') \<and>
   requests_get demo_env (JStr ''http://example.com/page.html'') 30 =
     Inr \<lparr>status_code = 200, content = ''<html></html>''\<rparr> \<and>
   image_open demo_env ''<html></html>'' = Inl ''cannot identify image file'' \<and>
   remove_background demo_env (Inr (JObj [(''imageUrl'', JStr ''http://example.com/page.html'')])) =
     ([HttpGet (JStr ''http://example.com/page.html'')],
      jsonify (JObj [(''error'', JStr ''cannot identify image file'')]) 500)"
  using unparseable_fetch_500 [of "[(''imageUrl'', JStr ''http://example.com/page.html'')]"
      "JStr ''http://example.com/page.html''" demo_env
      "\<lparr>status_code = 200, content = ''<html></html>''\<rparr>" "''cannot identify image file''"]
  by (simp add: demo_env_def)

text \<open>
  C2 as stated fails: an HTML page served with status 200 is answered with 500, not 400.
\<close>

theorem non_image_body_counterexample:
  "requests_get demo_env (JStr ''http://example.com/page.html'') 30 =
     Inr \<lparr>status_code = 200, content = ''<html></html>''\<rparr> \<and>
   image_open demo_env ''<html></html>'' = Inl ''cannot identify image file'' \<and>
   status (snd (remove_background demo_env
     (Inr (JObj [(''imageUrl'', JStr ''http://example.com/page.html'')])))) = 500 \<and>
   status (snd (remove_background demo_env
     (Inr (JObj [(''imageUrl'', JStr ''http://example.com/page.html'')])))) \<noteq> 400"
  by code_simp

section \<open>Successful requests\<close>

lemma resolve_image_Some:
  "resolve_image env data = (calls, Inr (Some img)) \<Longrightarrow> \<exists>kvs. data = JObj kvs"
  by (cases data) (auto simp: resolve_image_def split: sum.splits bool.splits if_splits)

lemma process_image_obj:
  "process_image env (JObj kvs) img0 =
     (case ensure_mode env img0 of
        Inl e \<Rightarrow> ([], Inl e)
      | Inr img1 \<Rightarrow>
          (case resize_if_needed env img1 (MAX_IMAGE_SIZE env) of
             Inl e \<Rightarrow> ([], Inl e)
           | Inr img \<Rightarrow>
               ([RembgRemove img (case map_of kvs ''alpha_matting'' of None \<Rightarrow> JBool True | Some v \<Rightarrow> v)],
                (case raised (rembg_remove env img
                        (case map_of kvs ''alpha_matting'' of None \<Rightarrow> JBool True | Some v \<Rightarrow> v) 240 10) of
                   Inl e \<Rightarrow> Inl e
                 | Inr output_image \<Rightarrow>
                     encode_output env
                       (case map_of kvs ''return_format'' of None \<Rightarrow> JStr ''base64'' | Some v \<Rightarrow> v)
                       output_image (img_size img1) img
                       (py_sub_float (time_end env) (time_start env))))))"
  by (simp add: process_image_def split: sum.splits)

lemma status_except: "status (except_clauses env e) \<noteq> 200"
  by (cases e) (simp_all add: except_clauses_def jsonify_def)

lemma remove_background_200:
  assumes "remove_background env request = (calls, resp)" and "status resp = 200"
  shows "\<exists>kvs calls0 img0 img1 img output_image.
    request = Inr (JObj kvs) \<and>
    resolve_image env (JObj kvs) = (calls0, Inr (Some img0)) \<and>
    ensure_mode env img0 = Inr img1 \<and>
    resize_if_needed env img1 (MAX_IMAGE_SIZE env) = Inr img \<and>
    rembg_remove env img
      (case map_of kvs ''alpha_matting'' of None \<Rightarrow> JBool True | Some v \<Rightarrow> v) 240 10 = Inr output_image \<and>
    calls = calls0 @ [RembgRemove img
      (case map_of kvs ''alpha_matting'' of None \<Rightarrow> JBool True | Some v \<Rightarrow> v)] \<and>
    encode_output env
      (case map_of kvs ''return_format'' of None \<Rightarrow> JStr ''base64'' | Some v \<Rightarrow> v)
      output_image (img_size img1) img (py_sub_float (time_end env) (time_start env)) = Inr resp"
proof -
  obtain calls' r where tb: "try_block env request = (calls', r)" by (cases "try_block env request")
  with assms have r: "r = Inr resp" and c: "calls' = calls"
    using status_except [of env] by (auto simp: remove_background_def split: sum.splits)
  from tb r assms(2) obtain data where req: "request = Inr data" and t: "truthy data"
    by (cases request) (auto simp: try_block_def raised_def jsonify_def split: if_splits)
  obtain calls0 ri where ri: "resolve_image env data = (calls0, ri)" by (cases "resolve_image env data")
  from tb r req t ri assms(2) obtain img0 where ri': "ri = Inr (Some img0)"
    by (cases ri) (auto simp: try_block_def raised_def jsonify_def split: option.splits)
  from resolve_image_Some ri ri' obtain kvs where d: "data = JObj kvs" by blast
  obtain calls1 pr where p: "process_image env (JObj kvs) img0 = (calls1, pr)"
    by (cases "process_image env (JObj kvs) img0")
  from tb r req t ri ri' d p c have pr: "pr = Inr resp" and cc: "calls = calls0 @ calls1"
    by (auto simp: try_block_def raised_def)
  have ri2: "resolve_image env (JObj kvs) = (calls0, Inr (Some img0))"
    using ri ri' d by simp
  from p pr ri2 show ?thesis
    unfolding process_image_obj
    by (auto simp: req d cc raised_Inr_iff raised_Inl_iff split: sum.splits)
qed


section \<open>The size normalizer\<close>

lemma resize_within:
  "img_size img = (w, h) \<Longrightarrow> w \<le> cap \<Longrightarrow> h \<le> cap \<Longrightarrow> resize_if_needed env img cap = Inr img"
  by (simp add: resize_if_needed_def)

lemma resize_above:
  assumes sz: "img_size img = (w, h)" and w: "0 \<le> w" and h: "0 \<le> h"
    and cap: "0 \<le> cap" "cap < max w h"
  shows "resize_if_needed env img cap =
    raised (image_resize env img
      (if w > h
       then (cap, py_int (py_mul_float_int (double (of_int (min w h) / of_int (max w h))) cap))
       else (py_int (py_mul_float_int (double (of_int (min w h) / of_int (max w h))) cap), cap)))"
proof (cases "w > h")
  case True
  then have "w \<noteq> 0" "min w h = h" "max w h = w" using h by auto
  with True cap sz show ?thesis
    by (simp add: resize_if_needed_def py_truediv_def)
next
  case False
  then have "h \<noteq> 0" "min w h = w" "max w h = h" using cap by auto
  with False cap sz show ?thesis
    by (auto simp: resize_if_needed_def py_truediv_def)
qed

lemma resize_above_size:
  assumes "resize_contract env"
    and "img_size img = (w, h)" and "0 \<le> w" and "0 \<le> h"
    and "0 \<le> cap" and "cap < max w h" and "min w h * cap \<le> 2 ^ 51"
    and "resize_if_needed env img cap = Inr img'"
  shows "\<exists>n. img_size img' = (if w > h then (cap, n) else (n, cap)) \<and>
    n = py_int (py_mul_float_int (double (of_int (min w h) / of_int (max w h))) cap) \<and>
    (n = min w h * cap div max w h \<or>
     (max w h dvd min w h * cap \<and> n = min w h * cap div max w h - 1))"
proof -
  define n where "n = py_int (py_mul_float_int (double (of_int (min w h) / of_int (max w h))) cap)"
  have "resize_if_needed env img cap =
      raised (image_resize env img (if w > h then (cap, n) else (n, cap)))"
    unfolding n_def by (rule resize_above [OF assms(2-6)])
  with assms(8) have "raised (image_resize env img (if w > h then (cap, n) else (n, cap))) = Inr img'"
    by (simp only:)
  then have "image_resize env img (if w > h then (cap, n) else (n, cap)) = Inr img'"
    by (simp only: raised_Inr_iff)
  with assms(1) have "img_size img' = (if w > h then (cap, n) else (n, cap))"
    unfolding resize_contract_def by blast
  moreover have "n = min w h * cap div max w h \<or>
     (max w h dvd min w h * cap \<and> n = min w h * cap div max w h - 1)"
    unfolding n_def using assms(3-7) by (intro scaled_dim) auto
  ultimately show ?thesis unfolding n_def by blast
qed

text \<open>
  C3, as the code has it. Take an image whose larger dimension strictly exceeds the threshold
  (dimensions and threshold non-negative, smaller dimension times threshold at most
  \<open>2^51\<close>, the range in which the float arithmetic is accurate). The size normalizer asks
  \<^verbatim>\<open>Image.resize\<close> for the size whose larger dimension is the threshold and whose smaller
  dimension is \<^verbatim>\<open>int((smaller / larger) * threshold)\<close>, the float product truncated toward
  zero: this is \<open>\<lfloor>threshold \<times> smaller / larger\<rfloor>\<close>, except that it may be one less when
  \<open>threshold \<times> smaller / larger\<close> is a whole number; it is not the nearest integer. The
  normalizer returns what \<^verbatim>\<open>Image.resize\<close> returns for that size: its error when it raises (as
  it does for a truncated dimension of 0), and otherwise an image that has exactly that size
  when \<^verbatim>\<open>Image.resize\<close> returns the size it is asked for.
\<close>

theorem resize_truncates:
  assumes "img_size img = (w, h)" and "0 \<le> w" and "0 \<le> h"
    and "0 \<le> cap" and "cap < max w h" and "min w h * cap \<le> 2 ^ 51"
  shows "\<exists>n.
    n = py_int (py_mul_float_int (double (of_int (min w h) / of_int (max w h))) cap) \<and>
    (n = min w h * cap div max w h \<or>
     (max w h dvd min w h * cap \<and> n = min w h * cap div max w h - 1)) \<and>
    resize_if_needed env img cap =
      raised (image_resize env img (if w > h then (cap, n) else (n, cap))) \<and>
    (resize_contract env \<longrightarrow>
     (\<forall>img'. resize_if_needed env img cap = Inr img' \<longrightarrow>
        img_size img' = (if w > h then (cap, n) else (n, cap))))"
proof -
  define n where "n = py_int (py_mul_float_int (double (of_int (min w h) / of_int (max w h))) cap)"
  have r: "resize_if_needed env img cap =
      raised (image_resize env img (if w > h then (cap, n) else (n, cap)))"
    unfolding n_def by (rule resize_above [OF assms(1-5)])
  have q: "n = min w h * cap div max w h \<or>
     (max w h dvd min w h * cap \<and> n = min w h * cap div max w h - 1)"
    unfolding n_def using assms(2-6) by (intro scaled_dim) auto
  have c: "img_size img' = (if w > h then (cap, n) else (n, cap))"
    if "resize_contract env" and "resize_if_needed env img cap = Inr img'" for img'
  proof -
    from that(2) r have "raised (image_resize env img (if w > h then (cap, n) else (n, cap))) = Inr img'"
      by (simp only:)
    then have "image_resize env img (if w > h then (cap, n) else (n, cap)) = Inr img'"
      by (simp only: raised_Inr_iff)
    with that(1) show ?thesis unfolding resize_contract_def by blast
  qed
  from r q c show ?thesis unfolding n_def by blast
qed

lemma demo_resize_contract: "resize_contract demo_env"
  by (auto simp: resize_contract_def demo_env_def split: if_splits)

lemma demo_convert_contract: "convert_contract demo_env"
  by (auto simp: convert_contract_def demo_env_def)

lemma demo_resize_wide:
  "resize_if_needed demo_env wide_image 2048 = Inr (wide_image\<lparr>img_size := (2048, 682)\<rparr>)"
  by code_simp

lemma demo_resize_request_wide:
  "raised (image_resize demo_env wide_image (2048, 682)) =
     Inr (wide_image\<lparr>img_size := (2048, 682)\<rparr>)"
  by code_simp

theorem resize_truncates_witness:
  "img_size wide_image = (3000, 1000) \<and> (1000 :: int) * 2048 \<le> 2 ^ 51 \<and>
   resize_contract demo_env \<and>
   py_int (py_mul_float_int (double (of_int 1000 / of_int 3000)) 2048) = 682 \<and>
   resize_if_needed demo_env wide_image 2048 = Inr (wide_image\<lparr>img_size := (2048, 682)\<rparr>) \<and>
   img_size (wide_image\<lparr>img_size := (2048, 682)\<rparr>) = (2048, 682)"
proof -
  have sz: "img_size wide_image = (3000, 1000)" by (simp add: wide_image_def)
  from resize_truncates [OF sz, of 2048 demo_env] obtain n where
    n: "n = py_int (py_mul_float_int (double (of_int (min 3000 1000) / of_int (max 3000 1000))) 2048)"
    and q: "n = min 3000 1000 * 2048 div max 3000 1000 \<or>
      (max 3000 1000 dvd min 3000 1000 * (2048 :: int) \<and>
       n = min 3000 1000 * 2048 div max 3000 1000 - 1)"
    and r: "resize_if_needed demo_env wide_image 2048 =
      raised (image_resize demo_env wide_image
        (if (3000 :: int) > 1000 then (2048, n) else (n, 2048)))"
    and c: "resize_contract demo_env \<longrightarrow>
      (\<forall>img'. resize_if_needed demo_env wide_image 2048 = Inr img' \<longrightarrow>
         img_size img' = (if (3000 :: int) > 1000 then (2048, n) else (n, 2048)))"
    by auto
  from q have n682: "n = 682" by simp
  from n n682 have "py_int (py_mul_float_int (double (of_int 1000 / of_int 3000)) 2048) = 682"
    by simp
  moreover from r n682 have
    "resize_if_needed demo_env wide_image 2048 = Inr (wide_image\<lparr>img_size := (2048, 682)\<rparr>)"
    by (simp add: demo_resize_request_wide)
  moreover from c demo_resize_contract this n682 have
    "img_size (wide_image\<lparr>img_size := (2048, 682)\<rparr>) = (2048, 682)"
    by simp
  ultimately show ?thesis using sz demo_resize_contract by simp
qed

text \<open>
  The thin image: \<^verbatim>\<open>int((1 / 3000) * 2048)\<close> is 0, \<^verbatim>\<open>Image.resize\<close> refuses the size
  \<open>(2048, 0)\<close>, and the request is answered with status 500.
\<close>

lemma thin_image_resize:
  "py_int (py_mul_float_int (double (of_int 1 / of_int 3000)) 2048) = 0"
  "resize_if_needed demo_env thin_image 2048 = Inl (LibraryError ''height and width must be > 0'')"
  "remove_background demo_env (Inr (JObj [(''imageData'', JStr ''dGhpbg=='')])) =
     ([], jsonify (JObj [(''error'', JStr ''height and width must be > 0'')]) 500)"
  by code_simp+

text \<open>
  C3 as stated fails: a 3000 by 1000 image under the threshold 2048 gets the height 682,
  while \<open>2048 \<times> 1000 / 3000 = 682.67\<close> rounds to 683.
\<close>

theorem resize_rounds_counterexample:
  "img_size wide_image = (3000, 1000) \<and>
   resize_if_needed demo_env wide_image 2048 = Inr (wide_image\<lparr>img_size := (2048, 682)\<rparr>) \<and>
   round (2048 * (1000 / 3000) :: rat) = 683"
  by code_simp

text \<open>
  The float product can fall below a whole quotient: \<open>2 \<times> 49 / 98 = 1\<close>, but
  \<^verbatim>\<open>int((2 / 98) * 49)\<close> is 0.
\<close>

lemma scaled_dim_below_floor_example:
  "py_int (py_mul_float_int (double (of_int 2 / of_int 98)) 49) = 0 \<and> 2 * 49 div 98 = (1 :: int)"
  by code_simp


lemma near_quotient:
  fixes s l c n :: int
  assumes l: "0 < l" and sl: "0 \<le> s" "s \<le> l" and c: "0 \<le> c"
    and n: "n = s * c div l \<or> (l dvd s * c \<and> n = s * c div l - 1)"
  shows "n \<le> c" and "\<bar>of_int n - of_int s * (of_int c / of_int l)\<bar> \<le> (1 :: rat)"
proof -
  define X :: rat where "X = of_int (s * c) / of_int l"
  have fl: "\<lfloor>X\<rfloor> = s * c div l" unfolding X_def by (rule floor_divide_of_int_eq)
  have "s * c \<le> l * c" using sl c by (intro mult_right_mono) auto
  then have "s * c div l \<le> l * c div l" using l by (rule zdiv_mono1)
  then have q: "s * c div l \<le> c" using l by simp
  with n show "n \<le> c" by auto
  have X: "of_int s * (of_int c / of_int l) = X" by (simp add: X_def)
  have b: "of_int (s * c div l) \<le> X" "X < of_int (s * c div l) + 1"
    unfolding fl [symmetric] by linarith+
  from n have "\<bar>of_int n - X\<bar> \<le> 1"
  proof
    assume "n = s * c div l"
    with b show ?thesis by (simp add: abs_le_iff) 
  next
    assume d: "l dvd s * c \<and> n = s * c div l - 1"
    then have "of_int (s * c div l) = X" unfolding X_def by (intro of_int_div) auto
    with d have "of_int n = X - 1" by simp
    then show ?thesis by simp
  qed
  then show "\<bar>of_int n - of_int s * (of_int c / of_int l)\<bar> \<le> (1 :: rat)"
    by (simp only: X)
qed

lemma success_json_inject:
  "success_json d1 o1 p1 e1 = success_json d2 o2 p2 e2 \<Longrightarrow> o1 = o2 \<and> p1 = p2"
  by (simp add: success_json_def size_json_def prod_eq_iff)

lemma encode_output_success:
  assumes "encode_output env rf out osz img el = Inr resp"
    and "payload resp = Json (success_json d osz' psz' el')"
  shows "osz' = osz \<and> psz' = img_size img"
  using assms
  by (auto simp: encode_output_def send_file_def jsonify_def raised_def
      dest!: success_json_inject split: if_splits sum.splits)

lemma encode_output_status: "encode_output env rf out osz img el = Inr resp \<Longrightarrow> status resp = 200"
  by (auto simp: encode_output_def send_file_def jsonify_def split: if_splits sum.splits)

lemma error_or_200:
  assumes "remove_background env request = (calls, resp)"
  shows "status resp = 200 \<or> (\<exists>m. payload resp = Json (JObj [(''error'', JStr m)]))"
proof -
  obtain calls' r where tb: "try_block env request = (calls', r)" by (cases "try_block env request")
  show ?thesis
  proof (cases r)
    case (Inl e)
    with tb assms have "resp = except_clauses env e" by (simp add: remove_background_def)
    then show ?thesis by (cases e) (simp_all add: except_clauses_def jsonify_def)
  next
    case (Inr resp')
    with tb assms have resp: "resp' = resp" by (simp add: remove_background_def)
    show ?thesis
    proof (cases "status resp = 200")
      case True
      then show ?thesis by simp
    next
      case False
      have "\<And>d img c. process_image env d img \<noteq> (c, Inr resp)"
        using False
        by (auto simp: process_image_def dest: encode_output_status split: sum.splits)
      with tb Inr resp show ?thesis
        by (auto simp: try_block_def jsonify_def split: sum.splits if_splits option.splits prod.splits)
    qed
  qed
qed

lemma success_payload_200:
  assumes "remove_background env request = (calls, resp)"
    and "payload resp = Json (success_json d osz psz el)"
  shows "status resp = 200"
  using error_or_200 [OF assms(1)] assms(2) by (auto simp: success_json_def)

lemma success_sizes:
  assumes "remove_background env request = (calls, resp)"
    and "payload resp = Json (success_json d osz psz el)"
  shows "\<exists>img1 img. img_size img1 = osz \<and> img_size img = psz \<and>
    resize_if_needed env img1 (MAX_IMAGE_SIZE env) = Inr img"
proof -
  from assms have "status resp = 200" by (rule success_payload_200)
  from remove_background_200 [OF assms(1) this] obtain kvs img1 img output_image where
    r: "resize_if_needed env img1 (MAX_IMAGE_SIZE env) = Inr img" and
    e: "encode_output env
      (case map_of kvs ''return_format'' of None \<Rightarrow> JStr ''base64'' | Some v \<Rightarrow> v)
      output_image (img_size img1) img (py_sub_float (time_end env) (time_start env)) = Inr resp"
    by blast
  from encode_output_success [OF e assms(2)] r show ?thesis by blast
qed

text \<open>
  C4. Take a success response in the base64 form whose \<^verbatim>\<open>originalSize\<close> is \<open>(w, h)\<close> with
  \<open>max w h\<close> above the configured cap, and whose \<^verbatim>\<open>processedSize\<close> is \<open>(w', h')\<close>. Then
  \<open>max w' h'\<close> is the cap, and each of \<open>w'\<close>, \<open>h'\<close> is within one pixel of the original
  dimension scaled by \<open>cap / max w h\<close>. The cap is not negative, \<^verbatim>\<open>Image.resize\<close> returns the
  size it is asked for, and the smaller dimension times the cap is at most \<open>2^51\<close> (PIL
  refuses to open images of more than about \<open>1.8 \<times> 10^8\<close> pixels).
\<close>

theorem processed_size_at_cap:
  assumes "resize_contract env" and "0 \<le> MAX_IMAGE_SIZE env"
    and "remove_background env request = (calls, resp)"
    and "payload resp = Json (success_json data_url (w, h) (w', h') elapsed)"
    and "0 \<le> w" and "0 \<le> h" and "MAX_IMAGE_SIZE env < max w h"
    and "min w h * MAX_IMAGE_SIZE env \<le> 2 ^ 51"
  shows "max w' h' = MAX_IMAGE_SIZE env \<and>
    \<bar>of_int w' - of_int w * (of_int (MAX_IMAGE_SIZE env) / of_int (max w h))\<bar> \<le> (1 :: rat) \<and>
    \<bar>of_int h' - of_int h * (of_int (MAX_IMAGE_SIZE env) / of_int (max w h))\<bar> \<le> (1 :: rat)"
proof -
  define c where "c = MAX_IMAGE_SIZE env"
  from success_sizes [OF assms(3,4)] obtain img1 img where
    sz: "img_size img1 = (w, h)" "img_size img = (w', h')" and
    r: "resize_if_needed env img1 c = Inr img"
    unfolding c_def by blast
  from resize_above_size [OF assms(1) sz(1) assms(5,6) _ _ _ r] assms(2,7,8)
  obtain n where n: "(w', h') = (if w > h then (c, n) else (n, c))"
    "n = min w h * c div max w h \<or> (max w h dvd min w h * c \<and> n = min w h * c div max w h - 1)"
    unfolding c_def sz(2) by blast
  have l: "0 < max w h" using assms(2,7) by simp
  have nq: "n \<le> c" "\<bar>of_int n - of_int (min w h) * (of_int c / of_int (max w h))\<bar> \<le> (1 :: rat)"
    using near_quotient [OF l _ _ _ n(2)] assms(2,5,6) by (simp_all add: c_def)
  show ?thesis
  proof (cases "w > h")
    case True
    with n(1) have "w' = c" "h' = n" by simp_all
    moreover from True have "max w h = w" "min w h = h" "w \<noteq> 0" using assms(6) by auto
    ultimately show ?thesis using nq by (simp add: c_def [symmetric])
  next
    case False
    with n(1) have "w' = n" "h' = c" by simp_all
    moreover from False have "max w h = h" "min w h = w" "h \<noteq> 0" using l by auto
    ultimately show ?thesis using nq by (simp add: c_def [symmetric])
  qed
qed


lemma demo_wide_response:
  "remove_background demo_env (Inr (JObj [(''imageData'', JStr ''d2lkZQ=='')])) =
     ([RembgRemove (wide_image\<lparr>img_size := (2048, 682)\<rparr>) (JBool True)],
      jsonify (success_json ''data:image/png;base64,b3V0'' (3000, 1000) (2048, 682) (3 / 8)) 200)"
  by code_simp

lemma demo_small_response:
  "remove_background demo_env (Inr (JObj [(''imageData'', JStr ''c21hbGw='')])) =
     ([RembgRemove (small_image\<lparr>img_mode := ''RGBA''\<rparr>) (JBool True)],
      jsonify (success_json ''data:image/png;base64,b3V0'' (640, 480) (640, 480) (3 / 8)) 200)"
  by code_simp

theorem processed_size_at_cap_witness:
  "resize_contract demo_env \<and> 0 \<le> MAX_IMAGE_SIZE demo_env \<and>
   remove_background demo_env (Inr (JObj [(''imageData'', JStr ''d2lkZQ=='')])) =
     ([RembgRemove (wide_image\<lparr>img_size := (2048, 682)\<rparr>) (JBool True)],
      jsonify (success_json ''data:image/png;base64,b3V0'' (3000, 1000) (2048, 682) (3 / 8)) 200) \<and>
   MAX_IMAGE_SIZE demo_env < max 3000 1000 \<and>
   max 2048 682 = MAX_IMAGE_SIZE demo_env \<and>
   \<bar>682 - 1000 * (2048 / 3000)\<bar> \<le> (1 :: rat)"
  using processed_size_at_cap [OF demo_resize_contract _ demo_wide_response, of
      "''data:image/png;base64,b3V0''" 3000 1000 2048 682 "3 / 8"]
    demo_resize_contract demo_wide_response
  by (simp add: demo_env_def jsonify_def)

text \<open>
  C5. On an image whose width and height are both within the threshold the size normalizer
  returns the image itself; and a success response whose \<^verbatim>\<open>originalSize\<close> is within the
  configured cap reports a \<^verbatim>\<open>processedSize\<close> equal to it.
\<close>

theorem within_cap_unchanged:
  "(img_size img = (w, h) \<and> w \<le> cap \<and> h \<le> cap \<longrightarrow> resize_if_needed env img cap = Inr img) \<and>
   (remove_background env request = (calls, resp) \<and>
    payload resp = Json (success_json data_url (w0, h0) processed_size elapsed) \<and>
    w0 \<le> MAX_IMAGE_SIZE env \<and> h0 \<le> MAX_IMAGE_SIZE env \<longrightarrow> processed_size = (w0, h0))"
proof (intro conjI impI)
  assume "img_size img = (w, h) \<and> w \<le> cap \<and> h \<le> cap"
  then show "resize_if_needed env img cap = Inr img" by (simp add: resize_within)
next
  assume a: "remove_background env request = (calls, resp) \<and>
    payload resp = Json (success_json data_url (w0, h0) processed_size elapsed) \<and>
    w0 \<le> MAX_IMAGE_SIZE env \<and> h0 \<le> MAX_IMAGE_SIZE env"
  then obtain img1 img' where "img_size img1 = (w0, h0)" "img_size img' = processed_size"
    "resize_if_needed env img1 (MAX_IMAGE_SIZE env) = Inr img'"
    using success_sizes by blast
  with a show "processed_size = (w0, h0)" by (simp add: resize_within)
qed

theorem within_cap_unchanged_witness:
  "img_size small_image = (640, 480) \<and>
   resize_if_needed demo_env small_image 2048 = Inr small_image \<and>
   remove_background demo_env (Inr (JObj [(''imageData'', JStr ''c21hbGw='')])) =
     ([RembgRemove (small_image\<lparr>img_mode := ''RGBA''\<rparr>) (JBool True)],
      jsonify (success_json ''data:image/png;base64,b3V0'' (640, 480) (640, 480) (3 / 8)) 200) \<and>
   640 \<le> MAX_IMAGE_SIZE demo_env \<and> 480 \<le> MAX_IMAGE_SIZE demo_env"
  using within_cap_unchanged [of small_image 640 480 2048 demo_env
      "Inr (JObj [(''imageData'', JStr ''c21hbGw='')])"
      "[RembgRemove (small_image\<lparr>img_mode := ''RGBA''\<rparr>) (JBool True)]"
      "jsonify (success_json ''data:image/png;base64,b3V0'' (640, 480) (640, 480) (3 / 8)) 200"
      "''data:image/png;base64,b3V0''" 640 480 "(640, 480)" "3 / 8"]
    demo_small_response
  by (simp add: small_image_def demo_env_def)

section \<open>Colour mode\<close>

lemma resize_mode:
  assumes "resize_contract env" and "resize_if_needed env img1 cap = Inr img"
  shows "img_mode img = img_mode img1"
  using assms unfolding resize_contract_def resize_if_needed_def
  by (auto simp: raised_Inr_iff split: prod.splits if_splits sum.splits)

lemma ensure_mode_mode:
  assumes "convert_contract env" and "ensure_mode env img0 = Inr img1"
  shows "img_mode img1 \<in> {''RGB'', ''RGBA''}"
    and "img_mode img0 \<notin> {''RGB'', ''RGBA''} \<Longrightarrow> img_mode img1 = ''RGBA''"
  using assms unfolding convert_contract_def ensure_mode_def
  by (auto simp: raised_Inr_iff split: if_splits)

lemma resolve_image_calls: "RembgRemove img am \<notin> set (fst (resolve_image env data))"
  by (auto simp: resolve_image_def split: sum.splits bool.splits)

lemma process_image_calls:
  assumes "RembgRemove img am \<in> set (fst (process_image env data img0))"
  shows "\<exists>img1. ensure_mode env img0 = Inr img1 \<and>
    resize_if_needed env img1 (MAX_IMAGE_SIZE env) = Inr img"
  using assms by (auto simp: process_image_def split: sum.splits)


lemma remove_background_calls:
  "fst (remove_background env request) = fst (try_block env request)"
  by (auto simp: remove_background_def split: prod.splits sum.splits)

lemma try_block_calls:
  assumes "c \<in> set (fst (try_block env request))"
  shows "\<exists>data. request = Inr data \<and>
    (c \<in> set (fst (resolve_image env data)) \<or>
     (\<exists>calls0 img0. resolve_image env data = (calls0, Inr (Some img0)) \<and>
        c \<in> set (fst (process_image env data img0))))"
  using assms
  by (cases request)
    (auto simp: try_block_def raised_def split: if_splits prod.splits sum.splits option.splits)

text \<open>
  C7. Provided \<^verbatim>\<open>Image.convert\<close> returns an image of the mode it is asked for and
  \<^verbatim>\<open>Image.resize\<close> keeps the mode: the image that leaves the mode check (lines 123-125) and
  enters the size normalizer is RGB or RGBA, and it is RGBA whenever the decoded image was in
  another mode; the size normalizer keeps that; and every image the handler passes to the
  removal model is RGB or RGBA.
\<close>

theorem mode_normalised:
  assumes "convert_contract env" and "resize_contract env"
  shows "(\<forall>img1. ensure_mode env img0 = Inr img1 \<longrightarrow>
            img_mode img1 \<in> {''RGB'', ''RGBA''} \<and>
            (img_mode img0 \<notin> {''RGB'', ''RGBA''} \<longrightarrow> img_mode img1 = ''RGBA'') \<and>
            (\<forall>img. resize_if_needed env img1 cap = Inr img \<longrightarrow>
               img_mode img \<in> {''RGB'', ''RGBA''})) \<and>
         (\<forall>img alpha_matting.
            RembgRemove img alpha_matting \<in> set (fst (remove_background env request)) \<longrightarrow>
            img_mode img \<in> {''RGB'', ''RGBA''})"
proof (intro conjI allI impI)
  fix img1 assume e: "ensure_mode env img0 = Inr img1"
  from ensure_mode_mode(1) [OF assms(1) e] show m: "img_mode img1 \<in> {''RGB'', ''RGBA''}" .
  { assume "img_mode img0 \<notin> {''RGB'', ''RGBA''}"
    with ensure_mode_mode(2) [OF assms(1) e] show "img_mode img1 = ''RGBA''" . }
  fix img assume "resize_if_needed env img1 cap = Inr img"
  from resize_mode [OF assms(2) this] m show "img_mode img \<in> {''RGB'', ''RGBA''}" by simp
next
  fix img alpha_matting
  assume "RembgRemove img alpha_matting \<in> set (fst (remove_background env request))"
  then have "RembgRemove img alpha_matting \<in> set (fst (try_block env request))"
    by (simp add: remove_background_calls)
  from try_block_calls [OF this] resolve_image_calls obtain data i0 where
    "RembgRemove img alpha_matting \<in> set (fst (process_image env data i0))" by blast
  from process_image_calls [OF this] obtain img1 where
    "ensure_mode env i0 = Inr img1" "resize_if_needed env img1 (MAX_IMAGE_SIZE env) = Inr img"
    by blast
  with ensure_mode_mode(1) [OF assms(1)] resize_mode [OF assms(2)]
  show "img_mode img \<in> {''RGB'', ''RGBA''}" by metis
qed

lemma demo_ensure_small: "ensure_mode demo_env small_image = Inr (small_image\<lparr>img_mode := ''RGBA''\<rparr>)"
  by code_simp

theorem mode_normalised_witness:
  "convert_contract demo_env \<and> resize_contract demo_env \<and>
   img_mode small_image = ''L'' \<and>
   ensure_mode demo_env small_image = Inr (small_image\<lparr>img_mode := ''RGBA''\<rparr>) \<and>
   img_mode (small_image\<lparr>img_mode := ''RGBA''\<rparr>) = ''RGBA'' \<and>
   remove_background demo_env (Inr (JObj [(''imageData'', JStr ''c21hbGw='')])) =
     ([RembgRemove (small_image\<lparr>img_mode := ''RGBA''\<rparr>) (JBool True)],
      jsonify (success_json ''data:image/png;base64,b3V0'' (640, 480) (640, 480) (3 / 8)) 200)"
  using mode_normalised [OF demo_convert_contract demo_resize_contract, of small_image 2048
      "Inr (JObj [(''imageData'', JStr ''c21hbGw='')])"]
    demo_convert_contract demo_resize_contract demo_ensure_small demo_small_response
  by (simp add: small_image_def)


section \<open>The output encoder\<close>

lemma str_lower_PNG: "str_lower ''PNG'' = ''png''"
  by code_simp

lemma py_round2_near:
  "\<exists>k. py_round2 x = double (of_int k / 100) \<and> \<bar>of_int k / 100 - x\<bar> \<le> 1 / 200"
proof -
  have "\<bar>of_int (round_even (x * 100)) - x * 100\<bar> \<le> 1 / 2" by (rule round_even_err)
  then have "\<bar>of_int (round_even (x * 100)) / 100 - x\<bar> \<le> 1 / 200"
    by (simp add: abs_le_iff field_simps)
  then show ?thesis unfolding py_round2_def by blast
qed

lemma encode_output_inline:
  assumes "encode_output env rf out osz img el = Inr resp" and "rf \<noteq> JStr ''binary''"
  shows "\<exists>buffer. image_save env out ''PNG'' = Inr buffer \<and>
    resp = jsonify (success_json (''data:image/png;base64,'' @ b64encode env buffer)
      osz (img_size img) el) 200"
  using assms
  by (auto simp: encode_output_def image_to_base64_def raised_def str_lower_PNG split: sum.splits)

text \<open>
  C8. A request that does not ask for the \<^verbatim>\<open>binary\<close> form and is answered with status 200
  gets a JSON object with exactly five fields: \<^verbatim>\<open>success\<close> true; \<^verbatim>\<open>dataUrl\<close>, the prefix
  \<^verbatim>\<open>data:image/png;base64,\<close> followed by the base64 of the PNG serialisation of the image the
  model returned; \<^verbatim>\<open>originalSize\<close>, the dimensions before the size normalizer;
  \<^verbatim>\<open>processedSize\<close>, the dimensions after it; and \<^verbatim>\<open>processingTime\<close>, the float nearest to a
  two-decimal number that is within 0.005 of the elapsed time.
\<close>

theorem inline_success_envelope:
  assumes "remove_background env (Inr (JObj kvs)) = (calls, resp)"
    and "map_of kvs ''return_format'' \<noteq> Some (JStr ''binary'')"
    and "status resp = 200"
  shows "\<exists>img0 img1 img output_image buffer t k.
    ensure_mode env img0 = Inr img1 \<and>
    resize_if_needed env img1 (MAX_IMAGE_SIZE env) = Inr img \<and>
    RembgRemove img (case map_of kvs ''alpha_matting'' of None \<Rightarrow> JBool True | Some v \<Rightarrow> v)
      \<in> set calls \<and>
    rembg_remove env img
      (case map_of kvs ''alpha_matting'' of None \<Rightarrow> JBool True | Some v \<Rightarrow> v) 240 10 =
      Inr output_image \<and>
    image_save env output_image ''PNG'' = Inr buffer \<and>
    resp = \<lparr>status = 200, mimetype = ''application/json'',
      payload = Json (JObj
        [(''success'', JBool True),
         (''dataUrl'', JStr (''data:image/png;base64,'' @ b64encode env buffer)),
         (''originalSize'', JArr [JInt (fst (img_size img1)), JInt (snd (img_size img1))]),
         (''processedSize'', JArr [JInt (fst (img_size img)), JInt (snd (img_size img))]),
         (''processingTime'', JFloat t)])\<rparr> \<and>
    t = double (of_int k / 100) \<and>
    \<bar>of_int k / 100 - py_sub_float (time_end env) (time_start env)\<bar> \<le> 1 / 200"
proof -
  define rf where "rf = (case map_of kvs ''return_format'' of None \<Rightarrow> JStr ''base64'' | Some v \<Rightarrow> v)"
  define am where "am = (case map_of kvs ''alpha_matting'' of None \<Rightarrow> JBool True | Some v \<Rightarrow> v)"
  define el where "el = py_sub_float (time_end env) (time_start env)"
  have rf: "rf \<noteq> JStr ''binary''"
    using assms(2) by (auto simp: rf_def split: option.splits)
  from remove_background_200 [OF assms(1,3)] obtain calls0 img0 img1 img output_image where
    e: "ensure_mode env img0 = Inr img1" and
    r: "resize_if_needed env img1 (MAX_IMAGE_SIZE env) = Inr img" and
    m: "rembg_remove env img am 240 10 = Inr output_image" and
    c: "calls = calls0 @ [RembgRemove img am]" and
    o: "encode_output env rf output_image (img_size img1) img el = Inr resp"
    unfolding rf_def am_def el_def by blast
  from encode_output_inline [OF o rf] obtain buffer where
    b: "image_save env output_image ''PNG'' = Inr buffer" and
    resp: "resp = jsonify (success_json (''data:image/png;base64,'' @ b64encode env buffer)
      (img_size img1) (img_size img) el) 200"
    by blast
  from py_round2_near [of el] obtain k where
    k: "py_round2 el = double (of_int k / 100)" "\<bar>of_int k / 100 - el\<bar> \<le> 1 / 200" by blast
  have "resp = \<lparr>status = 200, mimetype = ''application/json'',
      payload = Json (JObj
        [(''success'', JBool True),
         (''dataUrl'', JStr (''data:image/png;base64,'' @ b64encode env buffer)),
         (''originalSize'', JArr [JInt (fst (img_size img1)), JInt (snd (img_size img1))]),
         (''processedSize'', JArr [JInt (fst (img_size img)), JInt (snd (img_size img))]),
         (''processingTime'', JFloat (py_round2 el))])\<rparr>"
    unfolding resp by (simp add: jsonify_def success_json_def size_json_def)
  with e r m b k c show ?thesis
    unfolding am_def [symmetric] el_def [symmetric] by (intro exI conjI) (assumption | simp)+
qed


theorem inline_success_envelope_witness:
  "remove_background demo_env (Inr (JObj [(''imageData'', JStr ''d2lkZQ=='')])) =
     ([RembgRemove (wide_image\<lparr>img_size := (2048, 682)\<rparr>) (JBool True)],
      jsonify (success_json ''data:image/png;base64,b3V0'' (3000, 1000) (2048, 682) (3 / 8)) 200) \<and>
   map_of [(''imageData'', JStr ''d2lkZQ=='')] ''return_format'' \<noteq> Some (JStr ''binary'') \<and>
   status (jsonify (success_json ''data:image/png;base64,b3V0'' (3000, 1000) (2048, 682) (3 / 8)) 200)
     = 200 \<and>
   (\<exists>img1 img buffer t k.
      resize_if_needed demo_env img1 (MAX_IMAGE_SIZE demo_env) = Inr img \<and>
      jsonify (success_json ''data:image/png;base64,b3V0'' (3000, 1000) (2048, 682) (3 / 8)) 200 =
        \<lparr>status = 200, mimetype = ''application/json'',
         payload = Json (JObj
           [(''success'', JBool True),
            (''dataUrl'', JStr (''data:image/png;base64,'' @ b64encode demo_env buffer)),
            (''originalSize'', JArr [JInt (fst (img_size img1)), JInt (snd (img_size img1))]),
            (''processedSize'', JArr [JInt (fst (img_size img)), JInt (snd (img_size img))]),
            (''processingTime'', JFloat t)])\<rparr> \<and>
      t = double (of_int k / 100))"
proof -
  have h2: "map_of [(''imageData'', JStr ''d2lkZQ=='')] ''return_format'' \<noteq> Some (JStr ''binary'')"
    by simp
  have h3: "status (jsonify (success_json ''data:image/png;base64,b3V0'' (3000, 1000) (2048, 682)
      (3 / 8)) 200) = 200"
    by (simp add: jsonify_def)
  from inline_success_envelope [OF demo_wide_response h2 h3]
  have "\<exists>img1 img buffer t k.
      resize_if_needed demo_env img1 (MAX_IMAGE_SIZE demo_env) = Inr img \<and>
      jsonify (success_json ''data:image/png;base64,b3V0'' (3000, 1000) (2048, 682) (3 / 8)) 200 =
        \<lparr>status = 200, mimetype = ''application/json'',
         payload = Json (JObj
           [(''success'', JBool True),
            (''dataUrl'', JStr (''data:image/png;base64,'' @ b64encode demo_env buffer)),
            (''originalSize'', JArr [JInt (fst (img_size img1)), JInt (snd (img_size img1))]),
            (''processedSize'', JArr [JInt (fst (img_size img)), JInt (snd (img_size img))]),
            (''processingTime'', JFloat t)])\<rparr> \<and>
      t = double (of_int k / 100)"
    by blast
  with demo_wide_response h2 h3 show ?thesis by blast
qed

section \<open>Precedence of the inline data\<close>













section \<open>Unrecognised output forms\<close>

lemma encode_output_format:
  "rf \<noteq> JStr ''binary'' \<Longrightarrow> rf' \<noteq> JStr ''binary'' \<Longrightarrow>
   encode_output env rf out osz img el = encode_output env rf' out osz img el"
  by (simp add: encode_output_def)

lemma map_of_set_format:
  "map_of (map (\<lambda>kv. if fst kv = k then (k, x) else kv) kvs) k' =
     (if k' = k then map_option (\<lambda>_. x) (map_of kvs k) else map_of kvs k')"
  by (induction kvs) auto

lemma try_block_obj:
  "try_block env (Inr (JObj kvs)) =
     (if kvs = []
      then ([], Inr (jsonify (JObj [(''error'', JStr ''No JSON data provided'')]) 400))
      else
        (case resolve_image env (JObj kvs) of
           (calls, Inl e) \<Rightarrow> (calls, Inl e)
         | (calls, Inr None) \<Rightarrow>
             (calls, Inr (jsonify
                (JObj [(''error'', JStr ''No image provided. Use imageData or imageUrl'')])
                400))
         | (calls, Inr (Some img)) \<Rightarrow>
             (case process_image env (JObj kvs) img of (calls', r) \<Rightarrow> (calls @ calls', r))))"
  by (simp add: try_block_def raised_def)

lemma remove_background_200_obj:
  assumes "remove_background env (Inr (JObj kvs)) = (calls, resp)" and "status resp = 200"
  shows "\<exists>(img1 :: image) img output_image.
    encode_output env
      (case map_of kvs ''return_format'' of None \<Rightarrow> JStr ''base64'' | Some v \<Rightarrow> v)
      output_image (img_size img1) img (py_sub_float (time_end env) (time_start env)) = Inr resp"
  using remove_background_200 [OF assms] by (elim exE conjE) (simp, blast)

text \<open>
  C10. A payload whose \<^verbatim>\<open>return_format\<close> is any value other than the string \<^verbatim>\<open>binary\<close> is
  answered exactly as the same payload with \<^verbatim>\<open>return_format\<close> set to \<^verbatim>\<open>base64\<close>; when the
  answer has status 200 it is the JSON success envelope.
\<close>

theorem unknown_format_inline:
  assumes "map_of kvs ''return_format'' = Some v" and "v \<noteq> JStr ''binary''"
  shows "remove_background env (Inr (JObj kvs)) =
      remove_background env (Inr (JObj
        (map (\<lambda>kv. if fst kv = ''return_format'' then (''return_format'', JStr ''base64'') else kv)
           kvs))) \<and>
    (status (snd (remove_background env (Inr (JObj kvs)))) = 200 \<longrightarrow>
     (\<exists>data_url original_size processed_size elapsed.
        snd (remove_background env (Inr (JObj kvs))) =
          jsonify (success_json data_url original_size processed_size elapsed) 200))"
proof (intro conjI impI)
  let ?kvs' = "map (\<lambda>kv. if fst kv = ''return_format'' then (''return_format'', JStr ''base64'') else kv) kvs"
  have m: "map_of ?kvs' ''imageData'' = map_of kvs ''imageData''"
    "map_of ?kvs' ''imageUrl'' = map_of kvs ''imageUrl''"
    "map_of ?kvs' ''alpha_matting'' = map_of kvs ''alpha_matting''"
    "map_of ?kvs' ''return_format'' = Some (JStr ''base64'')"
    using assms(1) by (simp_all add: map_of_set_format)
  have e: "(?kvs' = []) = (kvs = [])" by simp
  have p: "process_image env (JObj ?kvs') img0 = process_image env (JObj kvs) img0" for img0
    unfolding process_image_obj m assms(1)
    using encode_output_format [OF assms(2), of "JStr ''base64''" env]
    by (simp split: sum.splits)
  have r: "resolve_image env (JObj ?kvs') = resolve_image env (JObj kvs)"
    unfolding resolve_image_obj m by (rule refl)
  have "try_block env (Inr (JObj ?kvs')) = try_block env (Inr (JObj kvs))"
    unfolding try_block_obj r p e by (rule refl)
  then show "remove_background env (Inr (JObj kvs)) = remove_background env (Inr (JObj ?kvs'))"
    by (simp add: remove_background_def)
next
  assume s: "status (snd (remove_background env (Inr (JObj kvs)))) = 200"
  obtain calls resp where rb: "remove_background env (Inr (JObj kvs)) = (calls, resp)"
    by (cases "remove_background env (Inr (JObj kvs))")
  with s have "status resp = 200" by simp
  from remove_background_200_obj [OF rb this] assms(1)
  obtain img1 :: image and img output_image where
    "encode_output env v output_image (img_size img1) img
       (py_sub_float (time_end env) (time_start env)) = Inr resp"
    by auto
  from encode_output_inline [OF this assms(2)] obtain buffer where
    "resp = jsonify (success_json (''data:image/png;base64,'' @ b64encode env buffer)
      (img_size img1) (img_size img) (py_sub_float (time_end env) (time_start env))) 200"
    by blast
  then have "snd (remove_background env (Inr (JObj kvs))) =
      jsonify (success_json (''data:image/png;base64,'' @ b64encode env buffer)
      (img_size img1) (img_size img) (py_sub_float (time_end env) (time_start env))) 200"
    using rb by simp
  then show "\<exists>data_url original_size processed_size elapsed.
        snd (remove_background env (Inr (JObj kvs))) =
          jsonify (success_json data_url original_size processed_size elapsed) 200"
    by (intro exI)
qed

lemma demo_small_base64_response:
  "remove_background demo_env
     (Inr (JObj [(''imageData'', JStr ''c21hbGw=''), (''return_format'', JStr ''base64'')])) =
     ([RembgRemove (small_image\<lparr>img_mode := ''RGBA''\<rparr>) (JBool True)],
      jsonify (success_json ''data:image/png;base64,b3V0'' (640, 480) (640, 480) (3 / 8)) 200)"
  by code_simp

theorem unknown_format_inline_witness:
  "map_of [(''imageData'', JStr ''c21hbGw=''), (''return_format'', JStr ''jpeg'')] ''return_format'' =
     Some (JStr ''jpeg'') \<and>
   JStr ''jpeg'' \<noteq> JStr ''binary'' \<and>
   remove_background demo_env
     (Inr (JObj [(''imageData'', JStr ''c21hbGw=''), (''return_format'', JStr ''jpeg'')])) =
     ([RembgRemove (small_image\<lparr>img_mode := ''RGBA''\<rparr>) (JBool True)],
      jsonify (success_json ''data:image/png;base64,b3V0'' (640, 480) (640, 480) (3 / 8)) 200)"
  using unknown_format_inline [of
      "[(''imageData'', JStr ''c21hbGw=''), (''return_format'', JStr ''jpeg'')]" "JStr ''jpeg''" demo_env]
    demo_small_base64_response
  by simp

end
